theory Spec2Isabelle
  imports Main
begin

section \<open>The connection pool of \<open>libavformat/dashenc_http.c\<close>\<close>

subsection \<open>Data model\<close>

text \<open>
  \<open>AVIOContext *\<close> and \<open>URLContext *\<close> values are opaque pointers; only their identity
  and whether they are \<open>NULL\<close> matter here. A pointer is an \<open>option\<close>: \<open>None\<close> is \<open>NULL\<close>.
\<close>

type_synonym avio = nat
type_synonym urlctx = nat

text \<open>
  \<open>thread_data_t\<close>. The fields \<open>claimed\<close> and \<open>opened\<close> only ever hold the literals
  \<open>0\<close> and \<open>1\<close> and are read for truth, so they are booleans; \<open>must_succeed\<close> is
  copied from the caller's \<open>int\<close> and stays one. \<open>release_time\<close> is an \<open>int64_t\<close>
  that is only copied and compared, never computed with, so it is an integer.
\<close>

record thread_data_t =
  tid :: int
  out :: "avio option"
  claimed :: bool
  opened :: bool
  release_time :: int
  must_succeed :: int

datatype log_level = AV_LOG_ERROR | AV_LOG_WARNING | AV_LOG_INFO | AV_LOG_DEBUG

text \<open>
  What the pool does to the outside world, in program order: log lines and the calls
  into the I/O layer.
\<close>

datatype event =
    Av_log log_level
  | Io_open "string option"
  | Http_do_new_request urlctx "string option"
  | Io_close avio
  | Avio_write avio "char list" int
  | Avio_flush avio
  | Url_shutdown urlctx

text \<open>
  The file's static state: the table \<open>thr_data\<close>, the job queue behind \<open>thread_pool\<close>
  (each job is the index of the slot whose address was enqueued), and the trace of
  events so far. The mutex \<open>lock\<close> is held around every read-modify-write of the table,
  so each locked region is one atomic step of the model.
\<close>

record pool =
  thr_data :: "thread_data_t list"
  jobs :: "nat list"
  io :: "event list"

definition nr_of_threads :: nat where
  "nr_of_threads = 20"

text \<open>The table has static storage duration: every field starts as zero.\<close>

definition zero_data :: thread_data_t where
  "zero_data = \<lparr>tid = 0, out = None, claimed = False, opened = False,
                 release_time = 0, must_succeed = 0\<rparr>"

definition init_pool :: pool where
  "init_pool = \<lparr>thr_data = replicate nr_of_threads zero_data, jobs = [], io = []\<rparr>"

definition pool_wf :: "pool \<Rightarrow> bool" where
  "pool_wf s = (length (thr_data s) = nr_of_threads)"

text \<open>
  The collaborators that are not part of this file, as the values they give back during
  one call of a pool operation: the clock (\<open>av_gettime() / 1000\<close>), the protocol test,
  the \<open>io_open\<close> callback (its return value and what it leaves in \<open>*pb\<close>), the URL
  context behind a stream, and the results of the HTTP new-request and shutdown calls.
\<close>

record env =
  now_ms :: int
  ff_is_http_proto :: "string \<Rightarrow> int"
  io_open_ret :: int
  io_open_pb :: "avio option"
  ffio_geturlcontext :: "avio option \<Rightarrow> urlctx option"
  ff_http_do_new_request :: "urlctx \<Rightarrow> string option \<Rightarrow> int"
  ffurl_shutdown :: "urlctx \<Rightarrow> int"

text \<open>
  How a call ends: it returns a value and leaves a state, it terminates the process
  in some state (\<open>abort()\<close>, a failed \<open>av_assert0\<close>), or its behaviour is undefined
  (an index outside \<open>thr_data\<close>, a \<open>NULL\<close> stream handed to the I/O layer).
\<close>

datatype 'a outcome = Returns 'a pool | Aborts pool | Undefined

fun final :: "'a outcome \<Rightarrow> pool option" where
  "final (Returns r s) = Some s"
| "final (Aborts s) = Some s"
| "final Undefined = None"

fun aborted :: "'a outcome \<Rightarrow> bool" where
  "aborted (Aborts s) = True"
| "aborted (Returns r s) = False"
| "aborted Undefined = False"

fun returned :: "'a outcome \<Rightarrow> bool" where
  "returned (Returns r s) = True"
| "returned (Aborts s) = False"
| "returned Undefined = False"

fun value_of :: "'a outcome \<Rightarrow> 'a option" where
  "value_of (Returns r s) = Some r"
| "value_of (Aborts s) = None"
| "value_of Undefined = None"

definition state_of :: "'a outcome \<Rightarrow> pool" where
  "state_of x = the (final x)"

text \<open>Log lines are the only events that are not I/O.\<close>

fun is_log :: "event \<Rightarrow> bool" where
  "is_log (Av_log l) = True"
| "is_log (Io_open url) = False"
| "is_log (Http_do_new_request u url) = False"
| "is_log (Io_close h) = False"
| "is_log (Avio_write h buf n) = False"
| "is_log (Avio_flush h) = False"
| "is_log (Url_shutdown u) = False"

definition emit :: "event \<Rightarrow> pool \<Rightarrow> pool" where
  "emit ev s = s\<lparr>io := io s @ [ev]\<rparr>"

definition av_log :: "log_level \<Rightarrow> pool \<Rightarrow> pool" where
  "av_log l s = emit (Av_log l) s"

text \<open>Whether a C \<open>int\<close> indexes a slot of the table.\<close>

definition in_table :: "int \<Rightarrow> bool" where
  "in_table n = (0 \<le> n \<and> n < int nr_of_threads)"

definition upd :: "nat \<Rightarrow> (thread_data_t \<Rightarrow> thread_data_t) \<Rightarrow> pool \<Rightarrow> pool" where
  "upd i f s = s\<lparr>thr_data := (thr_data s)[i := f (thr_data s ! i)]\<rparr>"

subsection \<open>\<open>claim_connection\<close>\<close>

text \<open>
  One iteration of the \<open>for\<close> loop, on the loop variables \<open>(data_nr, lowest_release_time)\<close>.
\<close>

definition claim_step :: "thread_data_t list \<Rightarrow> nat \<Rightarrow> int \<times> int \<Rightarrow> int \<times> int" where
  "claim_step thr i acc =
     (let data = thr ! i; data_nr = fst acc; lowest_release_time = snd acc in
      if \<not> claimed data then
        (if data_nr = -1 \<or> (release_time data \<noteq> 0 \<and> release_time data < lowest_release_time)
         then (int i, release_time data)
         else acc)
      else acc)"

definition claim_scan :: "thread_data_t list \<Rightarrow> nat \<Rightarrow> int \<times> int \<Rightarrow> int \<times> int" where
  "claim_scan thr n acc = fold (claim_step thr) [0..<n] acc"

definition claim_connection :: "env \<Rightarrow> string option \<Rightarrow> pool \<Rightarrow> int \<times> pool" where
  "claim_connection e url s =
     (let lowest_release_time = now_ms e;
          data_nr = fst (claim_scan (thr_data s) nr_of_threads (-1, lowest_release_time))
      in if data_nr = -1 then (-1, av_log AV_LOG_ERROR s)
         else (data_nr,
               upd (nat data_nr) (\<lambda>d. d\<lparr>claimed := True, tid := data_nr\<rparr>)
                 (av_log AV_LOG_INFO s)))"

subsection \<open>The I/O layer\<close>

text \<open>
  Modelled from the spec: \<open>ff_format_io_close\<close> is not part of this file. The spec's
  \<open>close(stream_handle)\<close> releases the underlying resources, and a slot's stream handle
  is absent when there is no open stream: a non-\<open>NULL\<close> handle is closed, and the
  slot's pointer is \<open>NULL\<close> afterwards.
\<close>

definition ff_format_io_close :: "nat \<Rightarrow> pool \<Rightarrow> pool" where
  "ff_format_io_close i s =
     (case out (thr_data s ! i) of
        None \<Rightarrow> s
      | Some h \<Rightarrow> upd i (\<lambda>d. d\<lparr>out := None\<rparr>) (emit (Io_close h) s))"

text \<open>
  Modelled from the spec: \<open>avio_write\<close> and \<open>avio_flush\<close> are not part of this file.
  The spec's \<open>write(stream_handle, bytes)\<close> and \<open>flush(stream_handle)\<close> are the
  buffered output primitives of an open stream. Both dereference the stream, so the
  callers below hand them a stream that is not \<open>NULL\<close> or have undefined behaviour.
\<close>

definition avio_write :: "avio \<Rightarrow> char list \<Rightarrow> int \<Rightarrow> pool \<Rightarrow> pool" where
  "avio_write h buf size' s = emit (Avio_write h buf size') s"

definition avio_flush :: "avio \<Rightarrow> pool \<Rightarrow> pool" where
  "avio_flush h s = emit (Avio_flush h) s"

text \<open>
  Modelled from the spec: \<open>pool_enqueue\<close> is not part of this file. The spec's
  \<open>enqueue_close(slot)\<close> pushes a close job for the slot on the shared queue.
\<close>

definition pool_enqueue :: "nat \<Rightarrow> pool \<Rightarrow> pool" where
  "pool_enqueue i s = s\<lparr>jobs := jobs s @ [i]\<rparr>"

subsection \<open>\<open>open_request\<close>, \<open>force_release_connection\<close>, \<open>abort_if_needed\<close>\<close>

text \<open>
  \<open>open_request\<close> indexes the table with whatever \<open>claim_connection\<close> returned, without
  a test; \<open>thr_data[-1]\<close> is outside the table.
\<close>

definition open_request :: "env \<Rightarrow> string option \<Rightarrow> pool \<Rightarrow> int outcome" where
  "open_request e url s =
     (let conn_nr = fst (claim_connection e url s);
          s1 = snd (claim_connection e url s)
      in if \<not> in_table conn_nr then Undefined
         else
           (let i = nat conn_nr;
                s2 = (if opened (thr_data s1 ! i) then av_log AV_LOG_WARNING s1 else s1);
                s3 = upd i (\<lambda>d. d\<lparr>out := io_open_pb e\<rparr>) (emit (Io_open url) s2);
                ret = io_open_ret e
            in if ret \<ge> 0 then Returns conn_nr (upd i (\<lambda>d. d\<lparr>opened := True\<rparr>) s3)
               else Returns ret s3))"

definition force_release_connection :: "thread_data_t \<Rightarrow> thread_data_t" where
  "force_release_connection data = data\<lparr>opened := False, claimed := False\<rparr>"

text \<open>\<open>abort_if_needed\<close> in state \<open>s\<close>, followed by the rest \<open>k\<close> of the caller.\<close>

definition abort_if_needed :: "int \<Rightarrow> pool \<Rightarrow> (pool \<Rightarrow> 'a outcome) \<Rightarrow> 'a outcome" where
  "abort_if_needed mustSucceed s k =
     (if mustSucceed \<noteq> 0 then Aborts (av_log AV_LOG_ERROR s) else k s)"

text \<open>
  Modelled from the spec: \<open>av_assert0\<close> is a macro of libavutil, not of this file. The
  spec has the process abort where the source asserts: a false condition terminates
  the process, a true one goes on with the rest \<open>k\<close> of the caller.
\<close>

definition av_assert0 :: "bool \<Rightarrow> pool \<Rightarrow> (pool \<Rightarrow> 'a outcome) \<Rightarrow> 'a outcome" where
  "av_assert0 cond s k = (if cond then k s else Aborts s)"

subsection \<open>\<open>pool_io_open\<close>\<close>

text \<open>With \<open>CONFIG_HTTP_PROTOCOL\<close> set, so that the \<open>else\<close> branch is compiled in.\<close>

definition pool_io_open ::
  "env \<Rightarrow> string option \<Rightarrow> int \<Rightarrow> int \<Rightarrow> pool \<Rightarrow> int outcome" where
  "pool_io_open e filename http_persistent must_succeed' s =
     (let http_base_proto = (case filename of None \<Rightarrow> 0 | Some f \<Rightarrow> ff_is_http_proto e f) in
      if http_base_proto = 0 \<or> http_persistent = 0 then
        (case open_request e filename s of
           Returns ret s1 \<Rightarrow> Returns ret (av_log AV_LOG_WARNING s1)
         | Aborts s1 \<Rightarrow> Aborts s1
         | Undefined \<Rightarrow> Undefined)
      else
        (let conn_nr = fst (claim_connection e filename s);
             s1 = snd (claim_connection e filename s);
             i = nat conn_nr
         in av_assert0 (conn_nr \<ge> 0) s1 (\<lambda>s1.
              let s2 = upd i (\<lambda>d. d\<lparr>must_succeed := must_succeed'\<rparr>) s1 in
              if \<not> opened (thr_data s2 ! i) then
                (let s3 = upd i (\<lambda>d. d\<lparr>out := io_open_pb e\<rparr>) (emit (Io_open filename) s2);
                     ret = io_open_ret e
                 in if ret < 0 then
                      abort_if_needed must_succeed'
                        (upd i force_release_connection (av_log AV_LOG_WARNING s3))
                        (Returns ret)
                    else Returns conn_nr (upd i (\<lambda>d. d\<lparr>opened := True\<rparr>) s3))
              else
                (let http_url_context = ffio_geturlcontext e (out (thr_data s2 ! i)) in
                 av_assert0 (http_url_context \<noteq> None) s2 (\<lambda>s2.
                   let u = the http_url_context;
                       s3 = emit (Http_do_new_request u filename) s2;
                       ret = ff_http_do_new_request e u filename
                   in if ret < 0 then
                        abort_if_needed must_succeed'
                          (upd i force_release_connection
                             (ff_format_io_close i (av_log AV_LOG_WARNING s3)))
                          (Returns ret)
                      else Returns conn_nr s3)))))"

subsection \<open>\<open>thr_io_close\<close>, the job of a worker\<close>

text \<open>
  The argument of \<open>thr_io_close\<close> is the address of a slot; here it is the slot's index.
  The job reads the clock first, asserts that the stream has a URL context, flushes the
  stream and shuts the URL context down; only then does it take the lock.
\<close>

definition thr_io_close :: "env \<Rightarrow> nat \<Rightarrow> pool \<Rightarrow> unit outcome" where
  "thr_io_close e i s =
     (if \<not> i < nr_of_threads then Undefined
      else
        (let data = thr_data s ! i;
             release_time' = now_ms e;
             http_url_context = ffio_geturlcontext e (out data)
         in av_assert0 (http_url_context \<noteq> None) s (\<lambda>s.
              case out data of
                None \<Rightarrow> Undefined
              | Some h \<Rightarrow>
                  (let u = the http_url_context;
                       s1 = emit (Url_shutdown u) (av_log AV_LOG_DEBUG (avio_flush h s));
                       ret = ffurl_shutdown e u;
                       release = (\<lambda>s'. Returns () (upd i (\<lambda>d. d\<lparr>claimed := False,
                                                release_time := release_time'\<rparr>) s'))
                   in if ret < 0 then
                        abort_if_needed (must_succeed data) (av_log AV_LOG_INFO s1)
                          (\<lambda>s2. release (upd i (\<lambda>d. d\<lparr>opened := False\<rparr>) s2))
                      else release s1))))"

subsection \<open>The operations on a connection number\<close>

definition pool_io_close :: "string option \<Rightarrow> int \<Rightarrow> pool \<Rightarrow> unit outcome" where
  "pool_io_close filename conn_nr s =
     (if conn_nr < 0 then Returns () (av_log AV_LOG_WARNING s)
      else if \<not> in_table conn_nr then Undefined
      else
        (let i = nat conn_nr;
             data = thr_data s ! i;
             s1 = av_log AV_LOG_DEBUG s
         in if \<not> opened data then
              abort_if_needed (must_succeed data) (av_log AV_LOG_INFO s1) (Returns ())
            else Returns () (pool_enqueue i s1)))"

definition pool_free :: "int \<Rightarrow> pool \<Rightarrow> unit outcome" where
  "pool_free conn_nr s =
     (if conn_nr < 0 then Returns () (av_log AV_LOG_WARNING s)
      else if \<not> in_table conn_nr then Undefined
      else
        (let i = nat conn_nr;
             s1 = av_log AV_LOG_DEBUG s
         in Returns () (upd i force_release_connection (ff_format_io_close i s1))))"

fun pool_free_loop :: "nat list \<Rightarrow> pool \<Rightarrow> unit outcome" where
  "pool_free_loop [] s = Returns () s"
| "pool_free_loop (i # is) s =
     (if out (thr_data s ! i) \<noteq> None then
        (case pool_free (int i) s of
           Returns _ s1 \<Rightarrow> pool_free_loop is s1
         | Aborts s1 \<Rightarrow> Aborts s1
         | Undefined \<Rightarrow> Undefined)
      else pool_free_loop is s)"

definition pool_free_all :: "pool \<Rightarrow> unit outcome" where
  "pool_free_all s = pool_free_loop [0..<nr_of_threads] (av_log AV_LOG_DEBUG s)"

definition pool_write_flush :: "char list \<Rightarrow> int \<Rightarrow> int \<Rightarrow> pool \<Rightarrow> unit outcome" where
  "pool_write_flush buf size' conn_nr s =
     (if conn_nr < 0 then Returns () (av_log AV_LOG_WARNING s)
      else if \<not> in_table conn_nr then Undefined
      else
        (case out (thr_data s ! nat conn_nr) of
           None \<Rightarrow> Undefined
         | Some h \<Rightarrow> Returns () (avio_flush h (avio_write h buf size' s))))"

definition pool_avio_write :: "char list \<Rightarrow> int \<Rightarrow> int \<Rightarrow> pool \<Rightarrow> int outcome" where
  "pool_avio_write buf size' conn_nr s =
     (if conn_nr < 0 then Returns (-1) (av_log AV_LOG_WARNING s)
      else if \<not> in_table conn_nr then Undefined
      else
        (case out (thr_data s ! nat conn_nr) of
           None \<Rightarrow> Returns 0 s
         | Some h \<Rightarrow> Returns 0 (avio_write h buf size' s)))"

text \<open>
  \<open>pool_get_context\<close> stores into \<open>*out\<close>; the model takes the old content of \<open>*out\<close>
  and returns the new one.
\<close>

definition pool_get_context :: "avio option \<Rightarrow> int \<Rightarrow> pool \<Rightarrow> (avio option) outcome" where
  "pool_get_context out_old conn_nr s =
     (if conn_nr < 0 then Returns out_old (av_log AV_LOG_WARNING s)
      else if \<not> in_table conn_nr then Undefined
      else Returns (out (thr_data s ! nat conn_nr)) s)"

subsection \<open>Concrete collaborators and pool states\<close>

text \<open>
  A collaborator for which every URL is HTTP and every call succeeds: \<open>io_open\<close>
  returns \<open>0\<close> and leaves stream \<open>7\<close>, whose URL context is \<open>7\<close>. The scenarios below
  change single fields of it.
\<close>

definition http_env :: env where
  "http_env = \<lparr>now_ms = 1, ff_is_http_proto = (\<lambda>_. 1), io_open_ret = 0,
               io_open_pb = Some 7, ffio_geturlcontext = (\<lambda>h. h),
               ff_http_do_new_request = (\<lambda>_ _. 0), ffurl_shutdown = (\<lambda>_. 0)\<rparr>"

text \<open>Every slot claimed.\<close>

definition full_pool :: pool where
  "full_pool = \<lparr>thr_data = replicate nr_of_threads (zero_data\<lparr>claimed := True\<rparr>),
                jobs = [], io = []\<rparr>"

text \<open>Slot 0 in use: claimed and open on stream 7, released once before at time 5.\<close>

definition busy_pool :: pool where
  "busy_pool = upd 0 (\<lambda>d. d\<lparr>out := Some 7, claimed := True, opened := True,
                              release_time := 5\<rparr>) init_pool"


text \<open>Open a persistent request that must succeed, then \<open>pool_free\<close> its slot.\<close>

definition freed_pool :: pool where
  "freed_pool =
     state_of (pool_free 0
       (state_of (pool_io_open http_env (Some ''http://h/a'') 1 1 init_pool)))"

text \<open>
  Open two persistent requests (slots 0 and 1), close the second and let a worker run
  the job at time 5, then \<open>pool_free\<close> the first: both slots are free, slot 1 was
  released at time 5, slot 0 has no release time.
\<close>

definition skewed_pool :: pool where
  "skewed_pool =
     state_of (pool_free 0
       (state_of (thr_io_close (http_env\<lparr>now_ms := 5\<rparr>) 1
         (state_of (pool_io_close (Some ''http://h/b'') 1
           (state_of (pool_io_open (http_env\<lparr>now_ms := 2, io_open_pb := Some 8\<rparr>)
                        (Some ''http://h/b'') 1 0
             (state_of (pool_io_open http_env (Some ''http://h/a'') 1 0 init_pool)))))))))"

subsection \<open>Runs of the pool\<close>

text \<open>
  The states the pool can be in: from the initial table, any operation that returns may
  follow, and a worker may run a close job at any moment. The map \<open>g\<close> from streams to
  their URL contexts is the same in every call. The relation allows more runs than the
  program has (a job for a slot that was never enqueued), so what holds of every state
  here holds of every state of the program.
\<close>

inductive reach :: "(avio option \<Rightarrow> urlctx option) \<Rightarrow> pool \<Rightarrow> bool"
  for g :: "avio option \<Rightarrow> urlctx option" where
  reach_init: "reach g init_pool"
| reach_io_open:
    "reach g s \<Longrightarrow> ffio_geturlcontext e = g \<Longrightarrow>
     pool_io_open e filename http_persistent m s = Returns r s' \<Longrightarrow> reach g s'"
| reach_io_close:
    "reach g s \<Longrightarrow> pool_io_close filename conn_nr s = Returns () s' \<Longrightarrow> reach g s'"
| reach_job:
    "reach g s \<Longrightarrow> ffio_geturlcontext e = g \<Longrightarrow>
     thr_io_close e i s = Returns () s' \<Longrightarrow> reach g s'"
| reach_free:
    "reach g s \<Longrightarrow> pool_free conn_nr s = Returns () s' \<Longrightarrow> reach g s'"
| reach_free_all:
    "reach g s \<Longrightarrow> pool_free_all s = Returns () s' \<Longrightarrow> reach g s'"
| reach_write_flush:
    "reach g s \<Longrightarrow> pool_write_flush buf n conn_nr s = Returns () s' \<Longrightarrow> reach g s'"
| reach_avio_write:
    "reach g s \<Longrightarrow> pool_avio_write buf n conn_nr s = Returns r s' \<Longrightarrow> reach g s'"
| reach_get_context:
    "reach g s \<Longrightarrow> pool_get_context out_old conn_nr s = Returns h s' \<Longrightarrow> reach g s'"

text \<open>Every slot that is free and open is on a stream that has a URL context.\<close>

definition reuse_inv :: "(avio option \<Rightarrow> urlctx option) \<Rightarrow> pool \<Rightarrow> bool" where
  "reuse_inv g s =
     (pool_wf s \<and>
      (\<forall>i<nr_of_threads. opened (thr_data s ! i) \<and> \<not> claimed (thr_data s ! i)
                            \<longrightarrow> g (out (thr_data s ! i)) \<noteq> None))"

section \<open>Properties\<close>

subsection \<open>State updates\<close>

lemma upd_simps [simp]:
  "length (thr_data (upd i f s)) = length (thr_data s)"
  "io (upd i f s) = io s"
  "jobs (upd i f s) = jobs s"
  "j \<noteq> i \<Longrightarrow> thr_data (upd i f s) ! j = thr_data s ! j"
  "i < length (thr_data s) \<Longrightarrow> thr_data (upd i f s) ! i = f (thr_data s ! i)"
  by (simp_all add: upd_def)

lemma emit_simps [simp]:
  "thr_data (emit ev s) = thr_data s"
  "jobs (emit ev s) = jobs s"
  "io (emit ev s) = io s @ [ev]"
  by (simp_all add: emit_def)

lemma av_log_simps [simp]:
  "thr_data (av_log l s) = thr_data s"
  "jobs (av_log l s) = jobs s"
  "io (av_log l s) = io s @ [Av_log l]"
  by (simp_all add: av_log_def)

lemma avio_simps [simp]:
  "thr_data (avio_write h buf n s) = thr_data s"
  "jobs (avio_write h buf n s) = jobs s"
  "io (avio_write h buf n s) = io s @ [Avio_write h buf n]"
  "thr_data (avio_flush h s) = thr_data s"
  "jobs (avio_flush h s) = jobs s"
  "io (avio_flush h s) = io s @ [Avio_flush h]"
  by (simp_all add: avio_write_def avio_flush_def)

lemma pool_wf_simps [simp]:
  "pool_wf (upd i f s) = pool_wf s"
  "pool_wf (emit ev s) = pool_wf s"
  "pool_wf (av_log l s) = pool_wf s"
  "pool_wf (avio_write h buf n s) = pool_wf s"
  "pool_wf (avio_flush h s) = pool_wf s"
  by (simp_all add: pool_wf_def)

lemma ff_format_io_close_simps [simp]:
  "length (thr_data (ff_format_io_close i s)) = length (thr_data s)"
  "jobs (ff_format_io_close i s) = jobs s"
  "io (ff_format_io_close i s) =
     io s @ (case out (thr_data s ! i) of None \<Rightarrow> [] | Some h \<Rightarrow> [Io_close h])"
  "j \<noteq> i \<Longrightarrow> thr_data (ff_format_io_close i s) ! j = thr_data s ! j"
  "i < length (thr_data s) \<Longrightarrow>
     thr_data (ff_format_io_close i s) ! i = (thr_data s ! i)\<lparr>out := None\<rparr>"
  by (auto simp: ff_format_io_close_def split: option.splits)

lemma in_table_nat: "in_table n \<Longrightarrow> nat n < nr_of_threads"
  by (simp add: in_table_def nat_less_iff)

lemma returned_eq: "returned x \<Longrightarrow> x = Returns (the (value_of x)) (state_of x)"
  by (cases x) (simp_all add: state_of_def)

lemma init_pool_wf: "pool_wf init_pool"
  by (simp add: pool_wf_def init_pool_def)

lemma busy_pool_wf: "pool_wf busy_pool"
  by (simp add: busy_pool_def init_pool_wf)

subsection \<open>The scan of \<open>claim_connection\<close>\<close>

lemma claim_scan_Suc: "claim_scan thr (Suc n) acc = claim_step thr n (claim_scan thr n acc)"
  by (simp add: claim_scan_def)

text \<open>The scan yields \<open>-1\<close> or the index of a slot that is not claimed.\<close>

lemma claim_scan_range:
  "fst (claim_scan thr n (-1, low)) = -1 \<or>
   (0 \<le> fst (claim_scan thr n (-1, low)) \<and> fst (claim_scan thr n (-1, low)) < int n \<and>
    \<not> claimed (thr ! nat (fst (claim_scan thr n (-1, low)))))"
proof (induction n)
  case 0
  show ?case by (simp add: claim_scan_def)
next
  case (Suc n)
  then show ?case
    by (auto simp: claim_scan_Suc claim_step_def Let_def)
qed

text \<open>It yields \<open>-1\<close> exactly when every slot is claimed.\<close>

lemma claim_scan_exhausted:
  "(fst (claim_scan thr n (-1, low)) = -1) = (\<forall>i<n. claimed (thr ! i))"
proof (induction n)
  case 0
  show ?case by (simp add: claim_scan_def)
next
  case (Suc n)
  have r: "fst (claim_scan thr n (-1, low)) = -1 \<or> 0 \<le> fst (claim_scan thr n (-1, low))"
    using claim_scan_range [of thr n low] by blast
  show ?case using Suc r
    by (auto simp: claim_scan_Suc claim_step_def Let_def less_Suc_eq)
qed

lemma claim_connection_fst:
  "fst (claim_connection e url s) = fst (claim_scan (thr_data s) nr_of_threads (-1, now_ms e))"
  by (simp add: claim_connection_def Let_def)

lemma claim_connection_range:
  "fst (claim_connection e url s) = -1 \<or> in_table (fst (claim_connection e url s))"
  using claim_scan_range [of "thr_data s" nr_of_threads "now_ms e"]
  by (auto simp: claim_connection_fst in_table_def)

lemma claim_connection_unclaimed:
  "0 \<le> fst (claim_connection e url s) \<Longrightarrow>
   \<not> claimed (thr_data s ! nat (fst (claim_connection e url s)))"
  using claim_scan_range [of "thr_data s" nr_of_threads "now_ms e"]
  by (auto simp: claim_connection_fst)

lemma claim_connection_exhausted:
  "(fst (claim_connection e url s) = -1) = (\<forall>i<nr_of_threads. claimed (thr_data s ! i))"
  by (simp add: claim_connection_fst claim_scan_exhausted)

lemma claim_connection_snd:
  "0 \<le> fst (claim_connection e url s) \<Longrightarrow>
   snd (claim_connection e url s) =
     upd (nat (fst (claim_connection e url s)))
       (\<lambda>d. d\<lparr>claimed := True, tid := fst (claim_connection e url s)\<rparr>) (av_log AV_LOG_INFO s)"
  by (auto simp: claim_connection_def Let_def)

lemma claim_connection_snd_fail:
  "fst (claim_connection e url s) = -1 \<Longrightarrow>
   snd (claim_connection e url s) = av_log AV_LOG_ERROR s"
  by (auto simp: claim_connection_def Let_def)

lemma claim_connection_claimed:
  assumes c: "fst (claim_connection e url s) = int i"
  shows "i < nr_of_threads"
    and "\<not> claimed (thr_data s ! i)"
    and "snd (claim_connection e url s) =
           upd i (\<lambda>d. d\<lparr>claimed := True, tid := int i\<rparr>) (av_log AV_LOG_INFO s)"
proof -
  have nn: "0 \<le> fst (claim_connection e url s)"
    using c by simp
  then have "in_table (fst (claim_connection e url s))"
    using claim_connection_range [of e url s] by auto
  then show "i < nr_of_threads"
    using in_table_nat c by fastforce
  show "\<not> claimed (thr_data s ! i)"
    using claim_connection_unclaimed [OF nn] c by simp
  show "snd (claim_connection e url s) =
           upd i (\<lambda>d. d\<lparr>claimed := True, tid := int i\<rparr>) (av_log AV_LOG_INFO s)"
    using claim_connection_snd [OF nn] c by simp
qed

subsection \<open>Which slot \<open>claim_connection\<close> picks\<close>

text \<open>Slots that are claimed do not change the loop variables.\<close>

lemma claim_scan_all_claimed:
  "\<forall>j<k. claimed (thr ! j) \<Longrightarrow> claim_scan thr k acc = acc"
proof (induction k)
  case 0
  show ?case by (simp add: claim_scan_def)
next
  case (Suc k)
  then show ?case by (simp add: claim_scan_Suc claim_step_def Let_def)
qed

text \<open>The first free slot of the scan is taken whatever its release time.\<close>

lemma claim_scan_first_free:
  assumes "\<forall>j<k. claimed (thr ! j)" and "\<not> claimed (thr ! k)"
  shows "claim_scan thr (Suc k) (-1, low) = (int k, release_time (thr ! k))"
  using assms by (simp add: claim_scan_Suc claim_scan_all_claimed claim_step_def Let_def)

text \<open>Once the bound is zero and no release time is negative, the scan keeps its slot.\<close>

lemma claim_scan_zero_bound:
  assumes nonneg: "\<forall>j<k + m. 0 \<le> release_time (thr ! j)"
  shows "claim_scan thr k acc = (int i, 0) \<Longrightarrow> claim_scan thr (k + m) acc = (int i, 0)"
  using nonneg
proof (induction m)
  case 0
  then show ?case by simp
next
  case (Suc m)
  then have "claim_scan thr (k + m) acc = (int i, 0)" by simp
  moreover have "0 \<le> release_time (thr ! (k + m))"
    using Suc.prems(2) by simp
  ultimately show ?case
    by (auto simp: claim_scan_Suc claim_step_def Let_def)
qed

text \<open>
  So when the first free slot has release time 0 (and no release time is negative),
  \<open>claim_connection\<close> returns it, whatever release times the later free slots have.
\<close>

lemma claim_connection_first_unreleased:
  assumes k: "k < nr_of_threads" and before: "\<forall>j<k. claimed (thr_data s ! j)"
    and free: "\<not> claimed (thr_data s ! k)" and zero: "release_time (thr_data s ! k) = 0"
    and nonneg: "\<forall>j<nr_of_threads. 0 \<le> release_time (thr_data s ! j)"
  shows "fst (claim_connection e url s) = int k"
proof -
  obtain m where m: "nr_of_threads = Suc k + m"
    using k less_iff_Suc_add by auto
  have "claim_scan (thr_data s) (Suc k) (-1, now_ms e) = (int k, 0)"
    using claim_scan_first_free [OF before free] zero by simp
  then have "claim_scan (thr_data s) (Suc k + m) (-1, now_ms e) = (int k, 0)"
    using claim_scan_zero_bound [of "Suc k" m "thr_data s"] nonneg m by simp
  then show ?thesis
    by (simp add: claim_connection_fst m)
qed

text \<open>The scan from a first free slot with a release time: oldest released first.\<close>

lemma claim_scan_oldest:
  assumes before: "\<forall>j<k. claimed (thr ! j)" and free: "\<not> claimed (thr ! k)"
    and released: "release_time (thr ! k) \<noteq> 0"
  shows "\<exists>i. claim_scan thr (Suc k + m) (-1, low) = (int i, release_time (thr ! i))
            \<and> i < Suc k + m \<and> \<not> claimed (thr ! i) \<and> release_time (thr ! i) \<noteq> 0
            \<and> (\<forall>j<Suc k + m. \<not> claimed (thr ! j) \<and> release_time (thr ! j) \<noteq> 0
                  \<longrightarrow> release_time (thr ! i) \<le> release_time (thr ! j))"
proof (induction m)
  case 0
  have "claim_scan thr (Suc k) (-1, low) = (int k, release_time (thr ! k))"
    using claim_scan_first_free [OF before free] .
  moreover have "\<forall>j<Suc k. \<not> claimed (thr ! j) \<and> release_time (thr ! j) \<noteq> 0
                  \<longrightarrow> release_time (thr ! k) \<le> release_time (thr ! j)"
    using before by (auto simp: less_Suc_eq)
  ultimately show ?case
    using free released by auto
next
  case (Suc m)
  then obtain i where i: "claim_scan thr (Suc k + m) (-1, low) = (int i, release_time (thr ! i))"
      "i < Suc k + m" "\<not> claimed (thr ! i)" "release_time (thr ! i) \<noteq> 0"
      "\<forall>j<Suc k + m. \<not> claimed (thr ! j) \<and> release_time (thr ! j) \<noteq> 0
                  \<longrightarrow> release_time (thr ! i) \<le> release_time (thr ! j)"
    by blast
  let ?n = "Suc k + m"
  have step: "claim_scan thr (Suc ?n) (-1, low) = claim_step thr ?n (int i, release_time (thr ! i))"
    using i(1) by (simp add: claim_scan_Suc)
  show ?case
  proof (cases "\<not> claimed (thr ! ?n) \<and> release_time (thr ! ?n) \<noteq> 0
                 \<and> release_time (thr ! ?n) < release_time (thr ! i)")
    case True
    then have "claim_scan thr (Suc ?n) (-1, low) = (int ?n, release_time (thr ! ?n))"
      using step by (simp add: claim_step_def Let_def)
    moreover have "\<forall>j<Suc ?n. \<not> claimed (thr ! j) \<and> release_time (thr ! j) \<noteq> 0
                  \<longrightarrow> release_time (thr ! ?n) \<le> release_time (thr ! j)"
      using i(5) True by (fastforce simp: less_Suc_eq)
    ultimately show ?thesis
      using True by (intro exI [of _ ?n]) simp
  next
    case False
    then have "claim_scan thr (Suc ?n) (-1, low) = (int i, release_time (thr ! i))"
      using step by (auto simp: claim_step_def Let_def)
    moreover have "\<forall>j<Suc ?n. \<not> claimed (thr ! j) \<and> release_time (thr ! j) \<noteq> 0
                  \<longrightarrow> release_time (thr ! i) \<le> release_time (thr ! j)"
      using i(5) False by (auto simp: less_Suc_eq)
    ultimately show ?thesis
      using i(2,3,4) by (intro exI [of _ i]) simp
  qed
qed

text \<open>
  When the first free slot has a release time, \<open>claim_connection\<close> returns a free slot
  with the smallest non-zero release time.
\<close>

lemma claim_connection_oldest_released:
  assumes k: "k < nr_of_threads" and before: "\<forall>j<k. claimed (thr_data s ! j)"
    and free: "\<not> claimed (thr_data s ! k)" and released: "release_time (thr_data s ! k) \<noteq> 0"
  shows "\<exists>i<nr_of_threads. fst (claim_connection e url s) = int i
            \<and> \<not> claimed (thr_data s ! i) \<and> release_time (thr_data s ! i) \<noteq> 0
            \<and> (\<forall>j<nr_of_threads. \<not> claimed (thr_data s ! j) \<and> release_time (thr_data s ! j) \<noteq> 0
                  \<longrightarrow> release_time (thr_data s ! i) \<le> release_time (thr_data s ! j))"
proof -
  obtain m where m: "nr_of_threads = Suc k + m"
    using k less_iff_Suc_add by auto
  show ?thesis
    using claim_scan_oldest [OF before free released, of m "now_ms e"]
    unfolding claim_connection_fst m by auto
qed

text \<open>
  Claim C1: whenever some unclaimed slot has a non-zero release time, \<open>claim_connection\<close>
  returns the unclaimed slot with the smallest non-zero release time. The source's own
  comment says "Released connections are used first", and the loop tests
  \<open>release_time != 0\<close> for that purpose, but the first unclaimed slot of the scan is taken
  through \<open>data_nr == -1\<close> and its release time, zero included, becomes the bound that
  later slots must undercut. In \<open>skewed_pool\<close> slot 1 is the only unclaimed slot with a
  release time (5), slot 0 is unclaimed and was never released by a worker, and the call
  returns slot 0.
\<close>

theorem claim_connection_prefers_unreleased:
  "\<not> claimed (thr_data skewed_pool ! 0) \<and> release_time (thr_data skewed_pool ! 0) = 0
   \<and> \<not> claimed (thr_data skewed_pool ! 1) \<and> release_time (thr_data skewed_pool ! 1) = 5
   \<and> fst (claim_connection (http_env\<lparr>now_ms := 100\<rparr>) None skewed_pool) = 0"
  by code_simp

subsection \<open>Claims are exclusive\<close>

text \<open>
  Claim C2: if \<open>claim_connection\<close> returns an index \<open>i \<ge> 0\<close>, slot \<open>i\<close> was unclaimed
  before the call and is claimed after it, and no other slot changes; the scan and the
  marking are one step, as the lock makes them. Hence a second call, right away or in any
  later state \<open>t\<close> in which slot \<open>i\<close> is still claimed, does not return \<open>i\<close>.
\<close>

theorem claim_connection_distinct:
  assumes wf: "pool_wf s" and c: "claim_connection e url s = (i, s')" and i: "0 \<le> i"
  shows "in_table i \<and> \<not> claimed (thr_data s ! nat i) \<and> claimed (thr_data s' ! nat i)
       \<and> (\<forall>k. k \<noteq> nat i \<longrightarrow> thr_data s' ! k = thr_data s ! k)
       \<and> fst (claim_connection e2 url2 s') \<noteq> i
       \<and> (\<forall>t. claimed (thr_data t ! nat i) \<longrightarrow> fst (claim_connection e3 url3 t) \<noteq> i)"
proof -
  have f: "fst (claim_connection e url s) = i" and sn: "snd (claim_connection e url s) = s'"
    using c by simp_all
  have rng: "in_table i"
    using claim_connection_range [of e url s] i f by auto
  then have lt: "nat i < length (thr_data s)"
    using wf by (simp add: in_table_def pool_wf_def nat_less_iff)
  have pre: "\<not> claimed (thr_data s ! nat i)"
    using claim_connection_unclaimed [of e url s] i f by simp
  have s': "s' = upd (nat i) (\<lambda>d. d\<lparr>claimed := True, tid := i\<rparr>) (av_log AV_LOG_INFO s)"
    using claim_connection_snd [of e url s] i f sn by simp
  have post: "claimed (thr_data s' ! nat i)"
    using lt by (simp add: s')
  have others: "\<forall>k. k \<noteq> nat i \<longrightarrow> thr_data s' ! k = thr_data s ! k"
    by (simp add: s')
  have later: "\<forall>t. claimed (thr_data t ! nat i) \<longrightarrow> fst (claim_connection e3 url3 t) \<noteq> i"
    using claim_connection_unclaimed [of e3 url3] i by auto
  have "fst (claim_connection e2 url2 s') \<noteq> i"
    using claim_connection_unclaimed [of e2 url2 s'] i post by auto
  with rng pre post others later show ?thesis by blast
qed

text \<open>
  Claim C2, at a concrete input: on the initial pool the first call returns slot 0 and
  marks it, and the next call returns another slot.
\<close>

theorem claim_connection_distinct_witness:
  "pool_wf init_pool
   \<and> claim_connection http_env None init_pool
       = (0, snd (claim_connection http_env None init_pool))
   \<and> claimed (thr_data (snd (claim_connection http_env None init_pool)) ! 0)
   \<and> fst (claim_connection (http_env\<lparr>now_ms := 2\<rparr>) None
            (snd (claim_connection http_env None init_pool))) \<noteq> 0"
proof -
  have "fst (claim_connection http_env None init_pool) = 0"
    by code_simp
  then have c: "claim_connection http_env None init_pool
       = (0, snd (claim_connection http_env None init_pool))"
    by (simp add: prod_eq_iff)
  show ?thesis
    using init_pool_wf c
      claim_connection_distinct [OF init_pool_wf c, of "http_env\<lparr>now_ms := 2\<rparr>" None]
    by simp
qed

subsection \<open>The persistent path of \<open>pool_io_open\<close>\<close>

text \<open>The \<open>else\<close> branch of \<open>pool_io_open\<close>, once slot \<open>i\<close> has been claimed.\<close>

lemma pool_io_open_persistent_unfold:
  assumes http: "ff_is_http_proto e f \<noteq> 0" and pers: "http_persistent \<noteq> 0"
    and c: "fst (claim_connection e (Some f) s) = int i"
    and s1: "snd (claim_connection e (Some f) s) = s1"
  shows "pool_io_open e (Some f) http_persistent m s =
     (let s2 = upd i (\<lambda>d. d\<lparr>must_succeed := m\<rparr>) s1 in
      if \<not> opened (thr_data s2 ! i) then
        (let s3 = upd i (\<lambda>d. d\<lparr>out := io_open_pb e\<rparr>) (emit (Io_open (Some f)) s2)
         in if io_open_ret e < 0 then
              abort_if_needed m (upd i force_release_connection (av_log AV_LOG_WARNING s3))
                (Returns (io_open_ret e))
            else Returns (int i) (upd i (\<lambda>d. d\<lparr>opened := True\<rparr>) s3))
      else
        av_assert0 (ffio_geturlcontext e (out (thr_data s2 ! i)) \<noteq> None) s2 (\<lambda>s2.
          let u = the (ffio_geturlcontext e (out (thr_data s2 ! i)));
              s3 = emit (Http_do_new_request u (Some f)) s2
          in if ff_http_do_new_request e u (Some f) < 0 then
               abort_if_needed m
                 (upd i force_release_connection
                    (ff_format_io_close i (av_log AV_LOG_WARNING s3)))
                 (Returns (ff_http_do_new_request e u (Some f)))
             else Returns (int i) s3))"
  using http pers c s1
  by (simp add: pool_io_open_def Let_def av_assert0_def)

text \<open>On the persistent path an exhausted pool fails the assertion.\<close>

lemma pool_io_open_persistent_exhausted:
  assumes http: "ff_is_http_proto e f \<noteq> 0" and pers: "http_persistent \<noteq> 0"
    and full: "\<forall>i<nr_of_threads. claimed (thr_data s ! i)"
  shows "pool_io_open e (Some f) http_persistent m s = Aborts (av_log AV_LOG_ERROR s)"
proof -
  have "fst (claim_connection e (Some f) s) = -1"
    using full by (simp add: claim_connection_exhausted)
  then show ?thesis
    using http pers claim_connection_snd_fail [of e "Some f" s]
    by (simp add: pool_io_open_def Let_def av_assert0_def)
qed

text \<open>
  On the other path \<open>open_request\<close> uses the \<open>-1\<close> of an exhausted pool as an index.
\<close>

lemma pool_io_open_plain_exhausted_general:
  assumes plain: "(case filename of None \<Rightarrow> 0 | Some f \<Rightarrow> ff_is_http_proto e f) = 0
                  \<or> http_persistent = 0"
    and full: "\<forall>i<nr_of_threads. claimed (thr_data s ! i)"
  shows "pool_io_open e filename http_persistent m s = Undefined"
proof -
  have "fst (claim_connection e filename s) = -1"
    using full by (simp add: claim_connection_exhausted)
  then have "open_request e filename s = Undefined"
    by (simp add: open_request_def Let_def in_table_def)
  then show ?thesis
    using plain by (auto simp: pool_io_open_def Let_def)
qed

text \<open>
  On the persistent path a request that must succeed aborts when the open of a fresh
  slot or the new request on an open slot fails.
\<close>

lemma pool_io_open_persistent_must_succeed:
  assumes wf: "pool_wf s" and http: "ff_is_http_proto e f \<noteq> 0" and pers: "http_persistent \<noteq> 0"
    and m: "m \<noteq> 0"
    and c: "fst (claim_connection e (Some f) s) = int i"
    and fail: "if opened (thr_data s ! i)
               then ff_http_do_new_request e
                      (the (ffio_geturlcontext e (out (thr_data s ! i)))) (Some f) < 0
               else io_open_ret e < 0"
  shows "aborted (pool_io_open e (Some f) http_persistent m s)"
proof -
  note cl = claim_connection_claimed [OF c]
  have lt: "i < length (thr_data s)"
    using cl(1) wf by (simp add: pool_wf_def)
  show ?thesis
    using fail m lt
    by (simp add: pool_io_open_persistent_unfold [OF http pers c cl(3)]
        Let_def abort_if_needed_def av_assert0_def)
qed

text \<open>
  On the persistent path a failed open of a fresh slot, for a request that need not
  succeed, returns the error and force-frees the slot.
\<close>

lemma pool_io_open_persistent_open_failure:
  assumes wf: "pool_wf s" and http: "ff_is_http_proto e f \<noteq> 0" and pers: "http_persistent \<noteq> 0"
    and c: "fst (claim_connection e (Some f) s) = int i"
    and closed: "\<not> opened (thr_data s ! i)"
    and fail: "io_open_ret e < 0"
  shows "\<exists>s'. pool_io_open e (Some f) http_persistent 0 s = Returns (io_open_ret e) s'
           \<and> \<not> claimed (thr_data s' ! i) \<and> \<not> opened (thr_data s' ! i)
           \<and> release_time (thr_data s' ! i) = release_time (thr_data s ! i)"
proof -
  note cl = claim_connection_claimed [OF c]
  have lt: "i < length (thr_data s)"
    using cl(1) wf by (simp add: pool_wf_def)
  show ?thesis
    using fail closed lt
    by (simp add: pool_io_open_persistent_unfold [OF http pers c cl(3)]
        Let_def abort_if_needed_def force_release_connection_def)
qed

text \<open>The same for a failed new request on an open slot; the stream is closed too.\<close>

lemma pool_io_open_persistent_request_failure:
  assumes wf: "pool_wf s" and http: "ff_is_http_proto e f \<noteq> 0" and pers: "http_persistent \<noteq> 0"
    and c: "fst (claim_connection e (Some f) s) = int i"
    and op: "opened (thr_data s ! i)"
    and uc: "ffio_geturlcontext e (out (thr_data s ! i)) = Some u"
    and fail: "ff_http_do_new_request e u (Some f) < 0"
  shows "\<exists>s'. pool_io_open e (Some f) http_persistent 0 s
                = Returns (ff_http_do_new_request e u (Some f)) s'
           \<and> \<not> claimed (thr_data s' ! i) \<and> \<not> opened (thr_data s' ! i)
           \<and> out (thr_data s' ! i) = None
           \<and> release_time (thr_data s' ! i) = release_time (thr_data s ! i)"
proof -
  note cl = claim_connection_claimed [OF c]
  have lt: "i < length (thr_data s)"
    using cl(1) wf by (simp add: pool_wf_def)
  show ?thesis
    using fail op uc lt
    by (simp add: pool_io_open_persistent_unfold [OF http pers c cl(3)]
        Let_def abort_if_needed_def av_assert0_def force_release_connection_def)
qed

subsection \<open>The path of \<open>pool_io_open\<close> through \<open>open_request\<close>\<close>

text \<open>The path through \<open>open_request\<close> has no \<open>abort\<close> and no assertion.\<close>

lemma pool_io_open_plain_never_aborts:
  assumes plain: "(case filename of None \<Rightarrow> 0 | Some f \<Rightarrow> ff_is_http_proto e f) = 0
                  \<or> http_persistent = 0"
  shows "\<not> aborted (pool_io_open e filename http_persistent m s)"
proof -
  have "\<not> aborted (open_request e filename s)"
    by (simp add: open_request_def Let_def)
  then show ?thesis
    using plain
    by (cases "open_request e filename s") (auto simp: pool_io_open_def Let_def)
qed

text \<open>On that path a failed open returns the error with the slot still claimed.\<close>

lemma pool_io_open_plain_open_failure:
  assumes wf: "pool_wf s"
    and plain: "(case filename of None \<Rightarrow> 0 | Some f \<Rightarrow> ff_is_http_proto e f) = 0
                  \<or> http_persistent = 0"
    and c: "fst (claim_connection e filename s) = int i"
    and fail: "io_open_ret e < 0"
  shows "\<exists>s'. pool_io_open e filename http_persistent m s = Returns (io_open_ret e) s'
           \<and> claimed (thr_data s' ! i)"
proof -
  note cl = claim_connection_claimed [OF c]
  have lt: "i < length (thr_data s)"
    using cl(1) wf by (simp add: pool_wf_def)
  have t: "in_table (int i)"
    using cl(1) by (simp add: in_table_def)
  have "\<exists>s1. open_request e filename s = Returns (io_open_ret e) s1 \<and> claimed (thr_data s1 ! i)"
    using fail lt t by (simp add: open_request_def Let_def c cl(3))
  then show ?thesis
    using plain by (auto simp: pool_io_open_def Let_def)
qed

text \<open>
  A close job whose shutdown fails aborts when the flag stored in its slot is set.
\<close>

lemma thr_io_close_must_succeed:
  assumes i: "i < nr_of_threads"
    and h: "out (thr_data s ! i) = Some h"
    and uc: "ffio_geturlcontext e (Some h) = Some u"
    and fail: "ffurl_shutdown e u < 0"
    and m: "must_succeed (thr_data s ! i) \<noteq> 0"
  shows "aborted (thr_io_close e i s)"
  using assms
  by (simp add: thr_io_close_def Let_def av_assert0_def abort_if_needed_def)

text \<open>
  Claim C3: for a request with \<open>must_succeed\<close> set, a connection failure terminates the
  process on both paths of \<open>pool_io_open\<close>. The persistent path does so
  (\<open>pool_io_open_persistent_must_succeed\<close>, \<open>thr_io_close_must_succeed\<close>); the path
  through \<open>open_request\<close> never looks at \<open>must_succeed\<close>. With \<open>must_succeed = 1\<close> and
  an \<open>io_open\<close> that fails with \<open>-5\<close>, for a URL that is not HTTP and for an HTTP URL
  without \<open>http_persistent\<close>, \<open>pool_io_open\<close> returns \<open>-5\<close> and the process goes on.
  When the open succeeds on that path, the flag is not stored in the slot either, so a
  later close job does not see it.
\<close>

theorem pool_io_open_plain_ignores_must_succeed:
  "value_of (pool_io_open (http_env\<lparr>ff_is_http_proto := (\<lambda>_. 0), io_open_ret := -5,
                                     io_open_pb := None\<rparr>)
               (Some ''seg.m4s'') 1 1 init_pool) = Some (-5)
   \<and> \<not> aborted (pool_io_open (http_env\<lparr>ff_is_http_proto := (\<lambda>_. 0), io_open_ret := -5,
                                         io_open_pb := None\<rparr>)
                   (Some ''seg.m4s'') 1 1 init_pool)
   \<and> value_of (pool_io_open (http_env\<lparr>io_open_ret := -5, io_open_pb := None\<rparr>)
               (Some ''http://h/seg.m4s'') 0 1 init_pool) = Some (-5)
   \<and> \<not> aborted (pool_io_open (http_env\<lparr>io_open_ret := -5, io_open_pb := None\<rparr>)
                   (Some ''http://h/seg.m4s'') 0 1 init_pool)
   \<and> value_of (pool_io_open http_env (Some ''http://h/seg.m4s'') 0 1 init_pool) = Some 0
   \<and> must_succeed (thr_data (state_of
         (pool_io_open http_env (Some ''http://h/seg.m4s'') 0 1 init_pool)) ! 0) = 0"
  by code_simp

text \<open>
  Claim C4: when no slot can be claimed, \<open>pool_io_open\<close> aborts on both paths. The
  persistent path asserts \<open>conn_nr >= 0\<close> (\<open>pool_io_open_persistent_exhausted\<close>);
  \<open>open_request\<close> has no such test and goes on to \<open>thr_data[-1]\<close>
  (\<open>pool_io_open_plain_exhausted_general\<close>). With every slot claimed, the call for a URL
  that is not HTTP, and the call for an HTTP URL without \<open>http_persistent\<close>, read and
  write outside the table; neither aborts.
\<close>

theorem pool_io_open_plain_exhausted:
  "pool_io_open (http_env\<lparr>ff_is_http_proto := (\<lambda>_. 0)\<rparr>) (Some ''seg.m4s'') 1 0 full_pool
     = Undefined
   \<and> pool_io_open http_env (Some ''http://h/seg.m4s'') 0 1 full_pool = Undefined
   \<and> \<not> aborted (pool_io_open (http_env\<lparr>ff_is_http_proto := (\<lambda>_. 0)\<rparr>)
                   (Some ''seg.m4s'') 1 0 full_pool)
   \<and> \<not> aborted (pool_io_open http_env (Some ''http://h/seg.m4s'') 0 1 full_pool)"
  by code_simp

text \<open>
  Claim C5: with \<open>must_succeed = 0\<close>, a failed open of a freshly claimed slot returns a
  negative error and leaves the slot unclaimed and unopened, on both paths. The
  persistent path does so (\<open>pool_io_open_persistent_open_failure\<close>); \<open>open_request\<close>
  returns the error and releases nothing (\<open>pool_io_open_plain_open_failure\<close>). With an \<open>io_open\<close> that fails with \<open>-5\<close> on
  the initial pool, \<open>pool_io_open\<close> returns \<open>-5\<close> and slot 0 stays claimed.
\<close>

theorem pool_io_open_plain_leaks_slot:
  "value_of (pool_io_open (http_env\<lparr>ff_is_http_proto := (\<lambda>_. 0), io_open_ret := -5,
                                     io_open_pb := None\<rparr>)
               (Some ''seg.m4s'') 1 0 init_pool) = Some (-5)
   \<and> claimed (thr_data (state_of
         (pool_io_open (http_env\<lparr>ff_is_http_proto := (\<lambda>_. 0), io_open_ret := -5,
                                   io_open_pb := None\<rparr>)
            (Some ''seg.m4s'') 1 0 init_pool)) ! 0)
   \<and> value_of (pool_io_open (http_env\<lparr>io_open_ret := -5, io_open_pb := None\<rparr>)
               (Some ''http://h/seg.m4s'') 0 0 init_pool) = Some (-5)
   \<and> claimed (thr_data (state_of
         (pool_io_open (http_env\<lparr>io_open_ret := -5, io_open_pb := None\<rparr>)
            (Some ''http://h/seg.m4s'') 0 0 init_pool)) ! 0)"
  by code_simp

subsection \<open>Reuse of an open connection\<close>


text \<open>
  Each operation leaves a slot as it was, or leaves it claimed, or not open, or on a
  stream with a URL context.
\<close>

lemma reuse_inv_step:
  assumes inv: "reuse_inv g s" and wf: "pool_wf s'"
    and slots: "\<forall>j<nr_of_threads. thr_data s' ! j = thr_data s ! j
                  \<or> claimed (thr_data s' ! j) \<or> \<not> opened (thr_data s' ! j)
                  \<or> g (out (thr_data s' ! j)) \<noteq> None"
  shows "reuse_inv g s'"
  unfolding reuse_inv_def
proof (intro conjI allI impI)
  show "pool_wf s'" by (rule wf)
next
  fix i
  assume i: "i < nr_of_threads"
    and free: "opened (thr_data s' ! i) \<and> \<not> claimed (thr_data s' ! i)"
  from slots i have "thr_data s' ! i = thr_data s ! i
                  \<or> claimed (thr_data s' ! i) \<or> \<not> opened (thr_data s' ! i)
                  \<or> g (out (thr_data s' ! i)) \<noteq> None"
    by blast
  with free inv i show "g (out (thr_data s' ! i)) \<noteq> None"
    by (auto simp: reuse_inv_def)
qed

lemma open_request_table:
  assumes wf: "pool_wf s" and r: "open_request e url s = Returns r s'"
  shows "pool_wf s'"
    and "\<forall>j. thr_data s' ! j = thr_data s ! j \<or> claimed (thr_data s' ! j)"
proof -
  have t: "in_table (fst (claim_connection e url s))"
    using r by (auto simp: open_request_def Let_def split: if_splits)
  then obtain i where c: "fst (claim_connection e url s) = int i"
    by (metis in_table_def nonneg_int_cases)
  note cl = claim_connection_claimed [OF c]
  have lt: "i < length (thr_data s)"
    using cl(1) wf by (simp add: pool_wf_def)
  show "pool_wf s'"
    using r t c wf
    by (auto simp: open_request_def Let_def cl(3) split: if_splits)
  show "\<forall>j. thr_data s' ! j = thr_data s ! j \<or> claimed (thr_data s' ! j)"
  proof
    fix j
    show "thr_data s' ! j = thr_data s ! j \<or> claimed (thr_data s' ! j)"
      using r t c lt
      by (cases "j = i") (auto simp: open_request_def Let_def cl(3) split: if_splits)
  qed
qed

lemma pool_io_open_table:
  assumes wf: "pool_wf s" and r: "pool_io_open e filename http_persistent m s = Returns r s'"
  shows "pool_wf s'"
    and "\<forall>j. thr_data s' ! j = thr_data s ! j \<or> claimed (thr_data s' ! j)
              \<or> \<not> opened (thr_data s' ! j)"
proof -
  have "pool_wf s' \<and> (\<forall>j. thr_data s' ! j = thr_data s ! j \<or> claimed (thr_data s' ! j)
              \<or> \<not> opened (thr_data s' ! j))"
  proof (cases "(case filename of None \<Rightarrow> 0 | Some f \<Rightarrow> ff_is_http_proto e f) = 0
              \<or> http_persistent = 0")
    case True
    then obtain s1 where "open_request e filename s = Returns r s1" "s' = av_log AV_LOG_WARNING s1"
      using r by (auto simp: pool_io_open_def Let_def split: outcome.splits)
    then show ?thesis
      using open_request_table [OF wf, of e filename r s1] by auto
  next
    case False
    then obtain f where f: "filename = Some f" and http: "ff_is_http_proto e f \<noteq> 0"
      and pers: "http_persistent \<noteq> 0"
      by (cases filename) auto
    have "0 \<le> fst (claim_connection e (Some f) s)"
      using r f http pers by (auto simp: pool_io_open_def Let_def av_assert0_def split: if_splits)
    then obtain i where c: "fst (claim_connection e (Some f) s) = int i"
      using nonneg_int_cases by blast
    note cl = claim_connection_claimed [OF c]
    have lt: "i < length (thr_data s)"
      using cl(1) wf by (simp add: pool_wf_def)
    note r' = r [unfolded f pool_io_open_persistent_unfold [OF http pers c cl(3)]]
    have w: "pool_wf s'"
      using r' wf
      by (auto simp: Let_def av_assert0_def abort_if_needed_def pool_wf_def
          split: if_splits)
    have "thr_data s' ! j = thr_data s ! j \<or> claimed (thr_data s' ! j)
              \<or> \<not> opened (thr_data s' ! j)" for j
      using r' lt
      by (cases "j = i")
        (auto simp: Let_def av_assert0_def abort_if_needed_def force_release_connection_def
          split: if_splits)
    with w show ?thesis by blast
  qed
  then show "pool_wf s'"
    and "\<forall>j. thr_data s' ! j = thr_data s ! j \<or> claimed (thr_data s' ! j)
              \<or> \<not> opened (thr_data s' ! j)"
    by blast+
qed

lemma thr_io_close_table:
  assumes wf: "pool_wf s" and r: "thr_io_close e i s = Returns r s'"
  shows "pool_wf s'"
    and "\<forall>j. thr_data s' ! j = thr_data s ! j \<or> ffio_geturlcontext e (out (thr_data s' ! j)) \<noteq> None"
proof -
  have i: "i < nr_of_threads"
    using r by (auto simp: thr_io_close_def split: if_splits)
  then have lt: "i < length (thr_data s)"
    using wf by (simp add: pool_wf_def)
  show "pool_wf s'"
    using r i wf
    by (auto simp: thr_io_close_def Let_def av_assert0_def abort_if_needed_def pool_wf_def
        split: if_splits option.splits)
  show "\<forall>j. thr_data s' ! j = thr_data s ! j \<or> ffio_geturlcontext e (out (thr_data s' ! j)) \<noteq> None"
  proof
    fix j
    show "thr_data s' ! j = thr_data s ! j \<or> ffio_geturlcontext e (out (thr_data s' ! j)) \<noteq> None"
      using r i lt
      by (cases "j = i")
        (auto simp: thr_io_close_def Let_def av_assert0_def abort_if_needed_def
          split: if_splits option.splits)
  qed
qed

lemma pool_free_table:
  assumes wf: "pool_wf s" and r: "pool_free conn_nr s = Returns r s'"
  shows "pool_wf s'"
    and "\<forall>j. thr_data s' ! j = thr_data s ! j \<or> \<not> opened (thr_data s' ! j)"
proof -
  have "pool_wf s' \<and> (\<forall>j. thr_data s' ! j = thr_data s ! j \<or> \<not> opened (thr_data s' ! j))"
  proof (cases "conn_nr < 0")
    case True
    then show ?thesis using r wf by (auto simp: pool_free_def)
  next
    case False
    then have t: "in_table conn_nr"
      using r by (auto simp: pool_free_def split: if_splits)
    have lt: "nat conn_nr < length (thr_data s)"
      using in_table_nat [OF t] wf by (simp add: pool_wf_def)
    have w: "pool_wf s'"
      using r False t wf by (auto simp: pool_free_def Let_def pool_wf_def)
    have "thr_data s' ! j = thr_data s ! j \<or> \<not> opened (thr_data s' ! j)" for j
      using r False t lt
      by (cases "j = nat conn_nr")
        (auto simp: pool_free_def Let_def force_release_connection_def)
    with w show ?thesis by blast
  qed
  then show "pool_wf s'"
    and "\<forall>j. thr_data s' ! j = thr_data s ! j \<or> \<not> opened (thr_data s' ! j)"
    by blast+
qed

lemma pool_free_loop_table:
  "pool_wf s \<Longrightarrow> pool_free_loop is s = Returns r s' \<Longrightarrow>
   pool_wf s' \<and> (\<forall>j. thr_data s' ! j = thr_data s ! j \<or> \<not> opened (thr_data s' ! j))"
proof (induction "is" arbitrary: s)
  case Nil
  then show ?case by simp
next
  case (Cons i "is")
  show ?case
  proof (cases "out (thr_data s ! i) \<noteq> None")
    case False
    then show ?thesis
      using Cons by simp
  next
    case True
    then obtain u s1 where f: "pool_free (int i) s = Returns u s1"
      and l: "pool_free_loop is s1 = Returns r s'"
      using Cons.prems(2) by (auto split: outcome.splits)
    note one = pool_free_table [OF Cons.prems(1) f]
    note rest = Cons.IH [OF one(1) l]
    have "thr_data s' ! j = thr_data s ! j \<or> \<not> opened (thr_data s' ! j)" for j
      using one(2) rest by metis
    with rest show ?thesis by blast
  qed
qed

lemma same_table_step:
  "reuse_inv g s \<Longrightarrow> thr_data s' = thr_data s \<Longrightarrow> reuse_inv g s'"
  by (simp add: reuse_inv_def pool_wf_def)

text \<open>Hence the invariant holds in every state of a run.\<close>

lemma reach_reuse_inv: "reach g s \<Longrightarrow> reuse_inv g s"
proof (induction rule: reach.induct)
  case reach_init
  show ?case
    by (simp add: reuse_inv_def pool_wf_def init_pool_def zero_data_def)
next
  case (reach_io_open s e filename http_persistent m r s')
  then have wf: "pool_wf s" by (simp add: reuse_inv_def)
  show ?case
    using pool_io_open_table [OF wf reach_io_open(3)] reach_io_open(4)
    by (intro reuse_inv_step [of g s s']) auto
next
  case (reach_io_close s filename conn_nr s')
  have "thr_data s' = thr_data s"
    using reach_io_close(2)
    by (auto simp: pool_io_close_def pool_enqueue_def Let_def abort_if_needed_def
        split: if_splits)
  with reach_io_close(3) show ?case
    by (rule same_table_step)
next
  case (reach_job s e i s')
  then have wf: "pool_wf s" by (simp add: reuse_inv_def)
  show ?case
    using thr_io_close_table [OF wf reach_job(3)] reach_job(2,4)
    by (intro reuse_inv_step [of g s s']) auto
next
  case (reach_free s conn_nr s')
  then have wf: "pool_wf s" by (simp add: reuse_inv_def)
  show ?case
    using pool_free_table [OF wf reach_free(2)] reach_free(3)
    by (intro reuse_inv_step [of g s s']) auto
next
  case (reach_free_all s s')
  then have wf: "pool_wf (av_log AV_LOG_DEBUG s)" by (simp add: reuse_inv_def)
  show ?case
    using pool_free_loop_table [OF wf reach_free_all(2) [unfolded pool_free_all_def]]
      reach_free_all(3)
    by (intro reuse_inv_step [of g s s']) auto
next
  case (reach_write_flush s buf n conn_nr s')
  have "thr_data s' = thr_data s"
    using reach_write_flush(2)
    by (auto simp: pool_write_flush_def split: if_splits option.splits)
  with reach_write_flush(3) show ?case
    by (rule same_table_step)
next
  case (reach_avio_write s buf n conn_nr r s')
  have "thr_data s' = thr_data s"
    using reach_avio_write(2)
    by (auto simp: pool_avio_write_def split: if_splits option.splits)
  with reach_avio_write(3) show ?case
    by (rule same_table_step)
next
  case (reach_get_context s out_old conn_nr h s')
  have "thr_data s' = thr_data s"
    using reach_get_context(2)
    by (auto simp: pool_get_context_def split: if_splits)
  with reach_get_context(3) show ?case
    by (rule same_table_step)
qed


text \<open>
  In a run, an open slot that \<open>claim_connection\<close> returns is on a stream with a URL
  context: the assertion before \<open>ff_http_do_new_request\<close> holds.
\<close>

lemma reach_claimed_open_slot:
  assumes r: "reach g s" and c: "fst (claim_connection e url s) = int i"
    and op: "opened (thr_data s ! i)"
  shows "\<exists>u. g (out (thr_data s ! i)) = Some u"
proof -
  note cl = claim_connection_claimed [OF c]
  have "reuse_inv g s"
    using r by (rule reach_reuse_inv)
  then show ?thesis
    using cl(1,2) op by (auto simp: reuse_inv_def)
qed



subsection \<open>Releasing a slot\<close>

text \<open>What a close job that returns has done to its slot.\<close>

lemma thr_io_close_post:
  assumes wf: "pool_wf s" and r: "thr_io_close e i s = Returns r s'"
  shows "\<exists>u. ffio_geturlcontext e (out (thr_data s ! i)) = Some u
           \<and> \<not> claimed (thr_data s' ! i)
           \<and> release_time (thr_data s' ! i) = now_ms e
           \<and> (0 \<le> ffurl_shutdown e u \<longrightarrow> opened (thr_data s' ! i) = opened (thr_data s ! i))
           \<and> (ffurl_shutdown e u < 0 \<longrightarrow>
                \<not> opened (thr_data s' ! i) \<and> must_succeed (thr_data s ! i) = 0)"
proof -
  have i: "i < nr_of_threads"
    using r by (auto simp: thr_io_close_def split: if_splits)
  then have lt: "i < length (thr_data s)"
    using wf by (simp add: pool_wf_def)
  obtain u where u: "ffio_geturlcontext e (out (thr_data s ! i)) = Some u"
    using r i by (cases "ffio_geturlcontext e (out (thr_data s ! i))")
      (auto simp: thr_io_close_def av_assert0_def Let_def)
  obtain h where h: "out (thr_data s ! i) = Some h"
    using r i u by (cases "out (thr_data s ! i)")
      (auto simp: thr_io_close_def av_assert0_def Let_def)
  show ?thesis
  proof (cases "ffurl_shutdown e u < 0")
    case True
    then show ?thesis
      using r i u h lt
      by (auto simp: thr_io_close_def av_assert0_def abort_if_needed_def Let_def
          split: if_splits)
  next
    case False
    then show ?thesis
      using r i u h lt
      by (auto simp: thr_io_close_def av_assert0_def abort_if_needed_def Let_def
          split: if_splits)
  qed
qed

text \<open>What \<open>pool_free\<close> does to a slot of the table.\<close>

lemma pool_free_post:
  assumes wf: "pool_wf s" and t: "in_table conn_nr"
  shows "\<exists>s'. pool_free conn_nr s = Returns () s'
           \<and> \<not> claimed (thr_data s' ! nat conn_nr)
           \<and> \<not> opened (thr_data s' ! nat conn_nr)
           \<and> release_time (thr_data s' ! nat conn_nr) = release_time (thr_data s ! nat conn_nr)"
proof -
  have lt: "nat conn_nr < length (thr_data s)"
    using in_table_nat [OF t] wf by (simp add: pool_wf_def)
  have nn: "\<not> conn_nr < 0"
    using t by (simp add: in_table_def)
  show ?thesis
    using lt nn t
    by (simp add: pool_free_def Let_def force_release_connection_def)
qed



text \<open>
  Claim C8 says every release, the force-release included, sets the release time to the
  current time. \<open>force_release_connection\<close> writes \<open>opened\<close> and \<open>claimed\<close> only: after
  \<open>pool_free\<close> the busy slot still has its earlier release time 5, and after a failed
  open at time 1000 the force-released slot 0 has release time 0.
\<close>

theorem force_release_keeps_release_time:
  "returned (pool_free 0 busy_pool)
   \<and> release_time (thr_data busy_pool ! 0) = 5
   \<and> release_time (thr_data (state_of (pool_free 0 busy_pool)) ! 0) = 5
   \<and> value_of (pool_io_open (http_env\<lparr>now_ms := 1000, io_open_ret := -5, io_open_pb := None\<rparr>)
                 (Some ''http://h/a'') 1 0 init_pool) = Some (-5)
   \<and> now_ms (http_env\<lparr>now_ms := 1000, io_open_ret := -5, io_open_pb := None\<rparr>) = 1000
   \<and> release_time (thr_data (state_of
         (pool_io_open (http_env\<lparr>now_ms := 1000, io_open_ret := -5, io_open_pb := None\<rparr>)
            (Some ''http://h/a'') 1 0 init_pool)) ! 0) = 0"
  by code_simp

text \<open>
  Claim C8, amended: every release sets \<open>claimed\<close> to false. The force-release
  (\<open>force_release_connection\<close>, in \<open>pool_free\<close> and on the two failure paths of the
  persistent path of \<open>pool_io_open\<close>) also sets \<open>opened\<close> to false and leaves the
  release time as it was. The close job, when it returns, sets the release time to the
  time read at its start, and sets \<open>opened\<close> to false only when the shutdown failed.
\<close>

theorem release_effects:
  "claimed (force_release_connection d) = False
   \<and> opened (force_release_connection d) = False
   \<and> release_time (force_release_connection d) = release_time d
   \<and> (pool_wf s \<and> in_table conn_nr \<longrightarrow>
        (\<exists>s'. pool_free conn_nr s = Returns () s'
           \<and> \<not> claimed (thr_data s' ! nat conn_nr)
           \<and> \<not> opened (thr_data s' ! nat conn_nr)
           \<and> release_time (thr_data s' ! nat conn_nr) = release_time (thr_data s ! nat conn_nr)))
   \<and> (pool_wf s \<and> ff_is_http_proto e f \<noteq> 0 \<and> http_persistent \<noteq> 0
        \<and> fst (claim_connection e (Some f) s) = int i
        \<and> \<not> opened (thr_data s ! i) \<and> io_open_ret e < 0 \<longrightarrow>
        (\<exists>s'. pool_io_open e (Some f) http_persistent 0 s = Returns (io_open_ret e) s'
           \<and> \<not> claimed (thr_data s' ! i) \<and> \<not> opened (thr_data s' ! i)
           \<and> release_time (thr_data s' ! i) = release_time (thr_data s ! i)))
   \<and> (pool_wf s \<and> ff_is_http_proto e f \<noteq> 0 \<and> http_persistent \<noteq> 0
        \<and> fst (claim_connection e (Some f) s) = int i
        \<and> opened (thr_data s ! i)
        \<and> ffio_geturlcontext e (out (thr_data s ! i)) = Some u
        \<and> ff_http_do_new_request e u (Some f) < 0 \<longrightarrow>
        (\<exists>s'. pool_io_open e (Some f) http_persistent 0 s
                 = Returns (ff_http_do_new_request e u (Some f)) s'
           \<and> \<not> claimed (thr_data s' ! i) \<and> \<not> opened (thr_data s' ! i)
           \<and> release_time (thr_data s' ! i) = release_time (thr_data s ! i)))
   \<and> (pool_wf s \<and> thr_io_close e j s = Returns () s'
        \<and> ffio_geturlcontext e (out (thr_data s ! j)) = Some v \<longrightarrow>
        \<not> claimed (thr_data s' ! j)
        \<and> release_time (thr_data s' ! j) = now_ms e
        \<and> opened (thr_data s' ! j) = (opened (thr_data s ! j) \<and> 0 \<le> ffurl_shutdown e v))"
proof -
  have a: "claimed (force_release_connection d) = False
     \<and> opened (force_release_connection d) = False
     \<and> release_time (force_release_connection d) = release_time d"
    by (simp add: force_release_connection_def)
  have b: "pool_wf s \<and> in_table conn_nr \<longrightarrow>
        (\<exists>s'. pool_free conn_nr s = Returns () s'
           \<and> \<not> claimed (thr_data s' ! nat conn_nr)
           \<and> \<not> opened (thr_data s' ! nat conn_nr)
           \<and> release_time (thr_data s' ! nat conn_nr) = release_time (thr_data s ! nat conn_nr))"
    using pool_free_post by blast
  have c: "pool_wf s \<and> ff_is_http_proto e f \<noteq> 0 \<and> http_persistent \<noteq> 0
        \<and> fst (claim_connection e (Some f) s) = int i
        \<and> \<not> opened (thr_data s ! i) \<and> io_open_ret e < 0 \<longrightarrow>
        (\<exists>s'. pool_io_open e (Some f) http_persistent 0 s = Returns (io_open_ret e) s'
           \<and> \<not> claimed (thr_data s' ! i) \<and> \<not> opened (thr_data s' ! i)
           \<and> release_time (thr_data s' ! i) = release_time (thr_data s ! i))"
    using pool_io_open_persistent_open_failure by blast
  have d: "pool_wf s \<and> ff_is_http_proto e f \<noteq> 0 \<and> http_persistent \<noteq> 0
        \<and> fst (claim_connection e (Some f) s) = int i
        \<and> opened (thr_data s ! i)
        \<and> ffio_geturlcontext e (out (thr_data s ! i)) = Some u
        \<and> ff_http_do_new_request e u (Some f) < 0 \<longrightarrow>
        (\<exists>s'. pool_io_open e (Some f) http_persistent 0 s
                 = Returns (ff_http_do_new_request e u (Some f)) s'
           \<and> \<not> claimed (thr_data s' ! i) \<and> \<not> opened (thr_data s' ! i)
           \<and> release_time (thr_data s' ! i) = release_time (thr_data s ! i))"
  proof
    assume h: "pool_wf s \<and> ff_is_http_proto e f \<noteq> 0 \<and> http_persistent \<noteq> 0
        \<and> fst (claim_connection e (Some f) s) = int i
        \<and> opened (thr_data s ! i)
        \<and> ffio_geturlcontext e (out (thr_data s ! i)) = Some u
        \<and> ff_http_do_new_request e u (Some f) < 0"
    then show "\<exists>s'. pool_io_open e (Some f) http_persistent 0 s
                 = Returns (ff_http_do_new_request e u (Some f)) s'
           \<and> \<not> claimed (thr_data s' ! i) \<and> \<not> opened (thr_data s' ! i)
           \<and> release_time (thr_data s' ! i) = release_time (thr_data s ! i)"
      using pool_io_open_persistent_request_failure [of s e f http_persistent i u] by blast
  qed
  have e: "pool_wf s \<and> thr_io_close e j s = Returns () s'
        \<and> ffio_geturlcontext e (out (thr_data s ! j)) = Some v \<longrightarrow>
        \<not> claimed (thr_data s' ! j)
        \<and> release_time (thr_data s' ! j) = now_ms e
        \<and> opened (thr_data s' ! j) = (opened (thr_data s ! j) \<and> 0 \<le> ffurl_shutdown e v)"
  proof
    assume h: "pool_wf s \<and> thr_io_close e j s = Returns () s'
        \<and> ffio_geturlcontext e (out (thr_data s ! j)) = Some v"
    then show "\<not> claimed (thr_data s' ! j)
        \<and> release_time (thr_data s' ! j) = now_ms e
        \<and> opened (thr_data s' ! j) = (opened (thr_data s ! j) \<and> 0 \<le> ffurl_shutdown e v)"
      using thr_io_close_post [of s e j "()" s'] by auto
  qed
  from a b c d e show ?thesis by blast
qed

text \<open>
  Claim C8 as amended, at concrete inputs: \<open>pool_free\<close> of the busy slot 0, and a
  close job on it at time 1000.
\<close>

theorem release_effects_witness:
  "pool_wf busy_pool \<and> in_table 0
   \<and> returned (pool_free 0 busy_pool)
   \<and> \<not> claimed (thr_data (state_of (pool_free 0 busy_pool)) ! 0)
   \<and> \<not> opened (thr_data (state_of (pool_free 0 busy_pool)) ! 0)
   \<and> release_time (thr_data (state_of (pool_free 0 busy_pool)) ! 0) = 5
   \<and> thr_io_close (http_env\<lparr>now_ms := 1000\<rparr>) 0 busy_pool
       = Returns () (state_of (thr_io_close (http_env\<lparr>now_ms := 1000\<rparr>) 0 busy_pool))
   \<and> \<not> claimed (thr_data (state_of (thr_io_close (http_env\<lparr>now_ms := 1000\<rparr>) 0 busy_pool)) ! 0)
   \<and> opened (thr_data (state_of (thr_io_close (http_env\<lparr>now_ms := 1000\<rparr>) 0 busy_pool)) ! 0)
   \<and> release_time (thr_data (state_of (thr_io_close (http_env\<lparr>now_ms := 1000\<rparr>) 0 busy_pool)) ! 0)
       = 1000"
proof -
  have t: "in_table 0"
    by code_simp
  have r: "returned (thr_io_close (http_env\<lparr>now_ms := 1000\<rparr>) 0 busy_pool)"
    by code_simp
  note eq = returned_eq [OF r, simplified]
  have u: "ffio_geturlcontext (http_env\<lparr>now_ms := 1000\<rparr>) (out (thr_data busy_pool ! 0)) = Some 7"
    by code_simp
  have o: "opened (thr_data busy_pool ! 0)"
    by code_simp
  have sh: "0 \<le> ffurl_shutdown (http_env\<lparr>now_ms := 1000\<rparr>) 7"
    by code_simp
  have rt: "release_time (thr_data busy_pool ! 0) = 5"
    by code_simp
  have n: "now_ms (http_env\<lparr>now_ms := 1000\<rparr>) = 1000"
    by simp
  show ?thesis
    using busy_pool_wf t eq u o sh rt n
      release_effects [where s = busy_pool and conn_nr = 0
        and e = "http_env\<lparr>now_ms := 1000\<rparr>" and j = 0 and v = 7
        and s' = "state_of (thr_io_close (http_env\<lparr>now_ms := 1000\<rparr>) 0 busy_pool)"
        and d = zero_data and f = "''http://h/a''" and http_persistent = 1 and i = 0
        and u = 7]
    by (auto simp: state_of_def)
qed

subsection \<open>Operations on a connection number\<close>

text \<open>
  Claim C9 says that every operation with an invalid slot number, a slot that is not
  opened included, only logs and never aborts. \<open>pool_io_close\<close> on a slot that is not
  opened calls \<open>abort_if_needed\<close> with the flag stored in the slot: after a request that
  must succeed and a \<open>pool_free\<close> of its slot, a \<open>pool_io_close\<close> of that slot aborts.
\<close>

theorem pool_io_close_aborts_on_freed_slot:
  "in_table 0 \<and> \<not> claimed (thr_data freed_pool ! 0) \<and> \<not> opened (thr_data freed_pool ! 0)
   \<and> aborted (pool_io_close (Some ''http://h/a'') 0 freed_pool)"
  by code_simp

text \<open>
  Claim C9, amended: with a negative connection number each of \<open>pool_io_close\<close>,
  \<open>pool_free\<close>, \<open>pool_write_flush\<close>, \<open>pool_avio_write\<close> and \<open>pool_get_context\<close> logs
  one warning and returns, with the table and the job queue unchanged and no I/O
  (\<open>pool_avio_write\<close> returns \<open>-1\<close>, \<open>pool_get_context\<close> leaves \<open>*out\<close> alone).
  \<open>pool_io_close\<close> on a slot of the table that is not opened changes neither the table
  nor the queue and only logs; it then aborts if the slot's \<open>must_succeed\<close> is set, and
  returns otherwise.
\<close>

theorem invalid_conn_nr:
  "(conn_nr < 0 \<longrightarrow>
      pool_io_close filename conn_nr s = Returns () (av_log AV_LOG_WARNING s)
      \<and> pool_free conn_nr s = Returns () (av_log AV_LOG_WARNING s)
      \<and> pool_write_flush buf n conn_nr s = Returns () (av_log AV_LOG_WARNING s)
      \<and> pool_avio_write buf n conn_nr s = Returns (-1) (av_log AV_LOG_WARNING s)
      \<and> pool_get_context out_old conn_nr s = Returns out_old (av_log AV_LOG_WARNING s)
      \<and> thr_data (av_log AV_LOG_WARNING s) = thr_data s
      \<and> jobs (av_log AV_LOG_WARNING s) = jobs s
      \<and> io (av_log AV_LOG_WARNING s) = io s @ [Av_log AV_LOG_WARNING])
   \<and> (in_table conn_nr \<and> \<not> opened (thr_data s ! nat conn_nr) \<longrightarrow>
        (\<exists>s' evs. final (pool_io_close filename conn_nr s) = Some s'
           \<and> thr_data s' = thr_data s \<and> jobs s' = jobs s
           \<and> io s' = io s @ evs \<and> list_all is_log evs
           \<and> aborted (pool_io_close filename conn_nr s)
               = (must_succeed (thr_data s ! nat conn_nr) \<noteq> 0)
           \<and> returned (pool_io_close filename conn_nr s)
               = (must_succeed (thr_data s ! nat conn_nr) = 0)))"
proof -
  have neg: "conn_nr < 0 \<longrightarrow>
      pool_io_close filename conn_nr s = Returns () (av_log AV_LOG_WARNING s)
      \<and> pool_free conn_nr s = Returns () (av_log AV_LOG_WARNING s)
      \<and> pool_write_flush buf n conn_nr s = Returns () (av_log AV_LOG_WARNING s)
      \<and> pool_avio_write buf n conn_nr s = Returns (-1) (av_log AV_LOG_WARNING s)
      \<and> pool_get_context out_old conn_nr s = Returns out_old (av_log AV_LOG_WARNING s)
      \<and> thr_data (av_log AV_LOG_WARNING s) = thr_data s
      \<and> jobs (av_log AV_LOG_WARNING s) = jobs s
      \<and> io (av_log AV_LOG_WARNING s) = io s @ [Av_log AV_LOG_WARNING]"
    by (simp add: pool_io_close_def pool_free_def pool_write_flush_def pool_avio_write_def
        pool_get_context_def)
  have closed: "in_table conn_nr \<and> \<not> opened (thr_data s ! nat conn_nr) \<longrightarrow>
        (\<exists>s' evs. final (pool_io_close filename conn_nr s) = Some s'
           \<and> thr_data s' = thr_data s \<and> jobs s' = jobs s
           \<and> io s' = io s @ evs \<and> list_all is_log evs
           \<and> aborted (pool_io_close filename conn_nr s)
               = (must_succeed (thr_data s ! nat conn_nr) \<noteq> 0)
           \<and> returned (pool_io_close filename conn_nr s)
               = (must_succeed (thr_data s ! nat conn_nr) = 0))"
  proof
    assume h: "in_table conn_nr \<and> \<not> opened (thr_data s ! nat conn_nr)"
    then have nn: "\<not> conn_nr < 0"
      by (simp add: in_table_def)
    show "\<exists>s' evs. final (pool_io_close filename conn_nr s) = Some s'
           \<and> thr_data s' = thr_data s \<and> jobs s' = jobs s
           \<and> io s' = io s @ evs \<and> list_all is_log evs
           \<and> aborted (pool_io_close filename conn_nr s)
               = (must_succeed (thr_data s ! nat conn_nr) \<noteq> 0)
           \<and> returned (pool_io_close filename conn_nr s)
               = (must_succeed (thr_data s ! nat conn_nr) = 0)"
    proof (cases "must_succeed (thr_data s ! nat conn_nr) = 0")
      case True
      show ?thesis
        using h nn True
        by (simp add: pool_io_close_def Let_def abort_if_needed_def)
    next
      case False
      show ?thesis
        using h nn False
        by (simp add: pool_io_close_def Let_def abort_if_needed_def)
    qed
  qed
  from neg closed show ?thesis by blast
qed

text \<open>
  Claim C9 as amended, at concrete inputs: connection number \<open>-1\<close>; slot 0 of
  \<open>freed_pool\<close>, not opened and with \<open>must_succeed\<close> set; slot 1 of it, not opened and
  without.
\<close>

theorem invalid_conn_nr_witness:
  "(-1::int) < 0
   \<and> pool_io_close None (-1) busy_pool = Returns () (av_log AV_LOG_WARNING busy_pool)
   \<and> pool_avio_write ''ab'' 2 (-1) busy_pool = Returns (-1) (av_log AV_LOG_WARNING busy_pool)
   \<and> thr_data (av_log AV_LOG_WARNING busy_pool) = thr_data busy_pool
   \<and> in_table 0 \<and> \<not> opened (thr_data freed_pool ! 0)
   \<and> must_succeed (thr_data freed_pool ! 0) \<noteq> 0
   \<and> aborted (pool_io_close None 0 freed_pool)
   \<and> in_table 1 \<and> \<not> opened (thr_data freed_pool ! 1)
   \<and> must_succeed (thr_data freed_pool ! 1) = 0
   \<and> returned (pool_io_close None 1 freed_pool)
   \<and> thr_data (state_of (pool_io_close None 1 freed_pool)) = thr_data freed_pool
   \<and> jobs (state_of (pool_io_close None 1 freed_pool)) = jobs freed_pool"
proof -
  have n: "(-1::int) < 0"
    by simp
  have h0: "in_table 0 \<and> \<not> opened (thr_data freed_pool ! nat 0)"
    by code_simp
  have m0: "must_succeed (thr_data freed_pool ! nat 0) \<noteq> 0"
    by code_simp
  have h1: "in_table 1 \<and> \<not> opened (thr_data freed_pool ! nat 1)"
    by code_simp
  have m1: "must_succeed (thr_data freed_pool ! nat 1) = 0"
    by code_simp
  show ?thesis
    using n h0 m0 h1 m1
      invalid_conn_nr [where conn_nr = "-1" and s = busy_pool and filename = None
        and buf = "''ab''" and n = 2]
      invalid_conn_nr [where conn_nr = 0 and s = freed_pool and filename = None]
      invalid_conn_nr [where conn_nr = 1 and s = freed_pool and filename = None]
    by (auto simp: state_of_def)
qed

text \<open>
  Claim C10 says \<open>pool_avio_write\<close> returns 0 for every non-negative connection number.
  The only test is \<open>conn_nr < 0\<close>. The largest \<open>int\<close>, 2147483647, passes it, and the
  call then reads \<open>thr_data[2147483647].out\<close>, some two thousand million slots past
  the 20 of the table: the read is outside every object of the program, and the call
  does not come back with 0.
\<close>

theorem pool_avio_write_beyond_table:
  "(0::int) \<le> 2147483647 \<and> \<not> in_table 2147483647
   \<and> \<not> returned (pool_avio_write ''ab'' 2 2147483647 init_pool)
   \<and> value_of (pool_avio_write ''ab'' 2 2147483647 init_pool) \<noteq> Some 0"
  by code_simp

text \<open>
  Claim C10, amended: for a connection number that is negative or indexes a slot of
  the table (\<open>0 \<le> conn_nr < 20\<close>), \<open>pool_avio_write\<close> returns and does not abort, and
  it returns \<open>-1\<close> only when the number is negative. For every slot of the table it
  returns 0 and changes neither the table nor the queue, also when the slot's stream is
  \<open>NULL\<close>; then the bytes are dropped and nothing changes at all, not even the log.
  Connection numbers of 20 and more are left out.
\<close>

theorem pool_avio_write_result:
  "(conn_nr < 0 \<longrightarrow> pool_avio_write buf n conn_nr s = Returns (-1) (av_log AV_LOG_WARNING s))
   \<and> (in_table conn_nr \<longrightarrow>
        (\<exists>s'. pool_avio_write buf n conn_nr s = Returns 0 s'
           \<and> thr_data s' = thr_data s \<and> jobs s' = jobs s
           \<and> (out (thr_data s ! nat conn_nr) = None \<longrightarrow> s' = s)))
   \<and> (conn_nr < 0 \<or> in_table conn_nr \<longrightarrow>
        returned (pool_avio_write buf n conn_nr s)
        \<and> \<not> aborted (pool_avio_write buf n conn_nr s)
        \<and> (value_of (pool_avio_write buf n conn_nr s) = Some (-1)) = (conn_nr < 0))"
  by (auto simp: pool_avio_write_def in_table_def split: option.splits)

text \<open>
  Claim C10 as amended, at concrete inputs: connection number \<open>-1\<close>, slot 3 of the
  initial pool (no stream), and the busy slot 0 (stream 7).
\<close>

theorem pool_avio_write_result_witness:
  "(-1::int) < 0
   \<and> pool_avio_write ''ab'' 2 (-1) init_pool = Returns (-1) (av_log AV_LOG_WARNING init_pool)
   \<and> in_table 3 \<and> out (thr_data init_pool ! 3) = None
   \<and> pool_avio_write ''ab'' 2 3 init_pool = Returns 0 init_pool
   \<and> in_table 0 \<and> out (thr_data busy_pool ! 0) = Some 7
   \<and> value_of (pool_avio_write ''ab'' 2 0 busy_pool) = Some 0
   \<and> \<not> aborted (pool_avio_write ''ab'' 2 0 busy_pool)"
proof -
  have n: "(-1::int) < 0"
    by simp
  have t3: "in_table 3" and o3: "out (thr_data init_pool ! nat 3) = None"
    by code_simp+
  have t0: "in_table 0" and o0: "out (thr_data busy_pool ! nat 0) = Some 7"
    by code_simp+
  show ?thesis
    using n t3 o3 t0 o0
      pool_avio_write_result [where conn_nr = "-1" and s = init_pool and buf = "''ab''" and n = 2]
      pool_avio_write_result [where conn_nr = 3 and s = init_pool and buf = "''ab''" and n = 2]
      pool_avio_write_result [where conn_nr = 0 and s = busy_pool and buf = "''ab''" and n = 2]
    by auto
qed

end
